theory Spec2Isabelle
  imports Complex_Main "HOL-Library.AList"
begin

section \<open>Run-time values\<close>

text \<open>
  The codecs of \<^verbatim>\<open>typescript/src/index.ts\<close> decode a value of type \<^verbatim>\<open>unknown\<close>.
  The values considered here are the JSON-like ones: \<^verbatim>\<open>undefined\<close>, \<^verbatim>\<open>null\<close>, booleans,
  numbers (with \<^verbatim>\<open>NaN\<close> and the two infinities), strings, dense arrays and plain objects
  with own data properties only. An object is the list of its properties in insertion
  order; reading a property takes the first binding of the key, and a key that is absent
  reads as \<^verbatim>\<open>undefined\<close>, as \<^verbatim>\<open>i[key]\<close> does. None of the property names used by the
  codecs is inherited from \<^verbatim>\<open>Object.prototype\<close>.
\<close>

datatype number = NaN | PosInfinity | NegInfinity | Finite rat

datatype jsval =
    JUndefined
  | JNull
  | JBool bool
  | JNum number
  | JStr string
  | JArr "jsval list"
  | JObj "(string \<times> jsval) list"

fun get_prop :: "jsval \<Rightarrow> string \<Rightarrow> jsval" where
  "get_prop (JObj kvs) key = (case map_of kvs key of Some v \<Rightarrow> v | None \<Rightarrow> JUndefined)"
| "get_prop _ key = JUndefined"

fun has_key :: "jsval \<Rightarrow> string \<Rightarrow> bool" where
  "has_key (JObj kvs) key = (key \<in> fst ` set kvs)"
| "has_key _ key = False"

fun elements :: "jsval \<Rightarrow> jsval list" where
  "elements (JArr xs) = xs"
| "elements _ = []"

section \<open>The decoder library (io-ts, module Decoder)\<close>

text \<open>
  \<^verbatim>\<open>index.ts\<close> builds every codec from six combinators of io-ts: \<^verbatim>\<open>D.string\<close>,
  \<^verbatim>\<open>D.number\<close>, \<^verbatim>\<open>D.nullable\<close>, \<^verbatim>\<open>D.array\<close>, \<^verbatim>\<open>D.struct\<close> and \<^verbatim>\<open>D.lazy\<close>. The library
  is a dependency of the repository; the definitions of this section follow its modules
  \<^verbatim>\<open>Decoder\<close>, \<^verbatim>\<open>Kleisli\<close>, \<^verbatim>\<open>Guard\<close>, \<^verbatim>\<open>DecodeError\<close> and \<^verbatim>\<open>FreeSemigroup\<close> (io-ts 2.2),
  and keep their names. A decoder maps a value to \<^verbatim>\<open>Either<DecodeError, A>\<close>: \<open>Inl\<close> is
  \<^verbatim>\<open>left\<close>, \<open>Inr\<close> is \<^verbatim>\<open>right\<close>. A \<^verbatim>\<open>DecodeError\<close> is a free semigroup over the error
  nodes; \<open>Concat\<close> is its concatenation.
\<close>

datatype kind = Required | Optional

datatype decode_error =
    Leaf jsval string
  | Key string kind decode_error
  | Index nat kind decode_error
  | Member nat decode_error
  | Lazy string decode_error
  | Wrap string decode_error
  | Concat decode_error decode_error

type_synonym decoder = "jsval \<Rightarrow> decode_error + jsval"

text \<open>\<^verbatim>\<open>toForest\<close>: the error nodes of a \<^verbatim>\<open>DecodeError\<close>, left to right.\<close>

fun toForest :: "decode_error \<Rightarrow> decode_error list" where
  "toForest (Concat l r) = toForest l @ toForest r"
| "toForest e = [e]"

subsection \<open>Guards\<close>

fun G_string :: "jsval \<Rightarrow> bool" where
  "G_string (JStr s) = True"
| "G_string _ = False"

fun G_number :: "jsval \<Rightarrow> bool" where
  "G_number (JNum n) = (n \<noteq> NaN)"
| "G_number _ = False"

fun G_UnknownArray :: "jsval \<Rightarrow> bool" where
  "G_UnknownArray (JArr xs) = True"
| "G_UnknownArray _ = False"

fun G_UnknownRecord :: "jsval \<Rightarrow> bool" where
  "G_UnknownRecord (JObj kvs) = True"
| "G_UnknownRecord _ = False"

subsection \<open>The validation applicative\<close>

fun mapLeft :: "('e \<Rightarrow> 'f) \<Rightarrow> 'e + 'a \<Rightarrow> 'f + 'a" where
  "mapLeft f (Inl e) = Inl (f e)"
| "mapLeft f (Inr a) = Inr a"

fun mapRight :: "('a \<Rightarrow> 'b) \<Rightarrow> 'e + 'a \<Rightarrow> 'e + 'b" where
  "mapRight f (Inl e) = Inl e"
| "mapRight f (Inr a) = Inr (f a)"

fun chain :: "'e + 'a \<Rightarrow> ('a \<Rightarrow> 'e + 'b) \<Rightarrow> 'e + 'b" where
  "chain (Inl e) f = Inl e"
| "chain (Inr a) f = f a"

text \<open>\<^verbatim>\<open>ap\<close> of \<^verbatim>\<open>getApplicativeValidation\<close>: two failures are concatenated.\<close>

fun ap :: "decode_error + ('a \<Rightarrow> 'b) \<Rightarrow> decode_error + 'a \<Rightarrow> decode_error + 'b" where
  "ap (Inl e1) (Inl e2) = Inl (Concat e1 e2)"
| "ap (Inl e1) (Inr a) = Inl e1"
| "ap (Inr f) (Inl e2) = Inl e2"
| "ap (Inr f) (Inr a) = Inr (f a)"

subsection \<open>Primitive decoders\<close>

definition fromGuard :: "(jsval \<Rightarrow> bool) \<Rightarrow> string \<Rightarrow> decoder" where
  "fromGuard is expected u = (if is u then Inr u else Inl (Leaf u expected))"

definition D_string :: decoder where
  "D_string = fromGuard G_string ''string''"

definition D_number :: decoder where
  "D_number = fromGuard G_number ''number''"

definition UnknownArray :: decoder where
  "UnknownArray = fromGuard G_UnknownArray ''Array<unknown>''"

definition UnknownRecord :: decoder where
  "UnknownRecord = fromGuard G_UnknownRecord ''Record<string, unknown>''"

subsection \<open>Combinators\<close>

definition D_nullable :: "decoder \<Rightarrow> decoder" where
  "D_nullable or_d u =
     (if u = JNull then Inr JNull
      else mapLeft (\<lambda>e. Concat (Member 0 (Leaf u ''null'')) (Member 1 e)) (or_d u))"

text \<open>
  \<^verbatim>\<open>traverseArrayWithIndex\<close> reduces the array from the left, pushing each decoded
  item onto the result and accumulating the errors.
\<close>

definition traverseArrayWithIndex ::
  "'a list \<Rightarrow> (nat \<Rightarrow> 'a \<Rightarrow> decode_error + 'b) \<Rightarrow> decode_error + 'b list" where
  "traverseArrayWithIndex as f =
     foldl (\<lambda>mbs (i, a). ap (mapRight (\<lambda>bs b. bs @ [b]) mbs) (f i a)) (Inr []) (enumerate 0 as)"

definition fromArray :: "decoder \<Rightarrow> jsval list \<Rightarrow> decode_error + jsval" where
  "fromArray item is =
     mapRight JArr
       (traverseArrayWithIndex is (\<lambda>index i. mapLeft (\<lambda>e. Index index Optional e) (item i)))"

definition D_array :: "decoder \<Rightarrow> decoder" where
  "D_array item u = chain (UnknownArray u) (\<lambda>a. fromArray item (elements a))"

text \<open>
  \<^verbatim>\<open>traverseRecordWithIndex\<close> visits the keys of the property table in the order of
  \<^verbatim>\<open>Object.keys\<close> and assigns each decoded value to that key of a fresh object.
\<close>

definition traverseRecordWithIndex ::
  "(string \<times> 'a) list \<Rightarrow> (string \<Rightarrow> 'a \<Rightarrow> decode_error + jsval)
     \<Rightarrow> decode_error + (string \<times> jsval) list" where
  "traverseRecordWithIndex r f =
     foldl (\<lambda>fr (key, a). ap (mapRight (\<lambda>r b. AList.update key b r) fr) (f key a)) (Inr []) r"

definition fromStruct :: "(string \<times> decoder) list \<Rightarrow> decoder" where
  "fromStruct properties i =
     mapRight JObj
       (traverseRecordWithIndex properties
          (\<lambda>key decoder. mapLeft (\<lambda>e. Key key Required e) (decoder (get_prop i key))))"

definition D_struct :: "(string \<times> decoder) list \<Rightarrow> decoder" where
  "D_struct properties u = chain (UnknownRecord u) (fromStruct properties)"

text \<open>
  \<^verbatim>\<open>D.lazy(id, f)\<close> runs the decoder returned by the thunk \<^verbatim>\<open>f\<close> and tags its errors
  with \<^verbatim>\<open>id\<close>; the thunk is memoised, which a pure model does not see.
\<close>

definition D_lazy :: "string \<Rightarrow> decoder \<Rightarrow> decoder" where
  "D_lazy ident f u = mapLeft (\<lambda>e. Lazy ident e) (f u)"

section \<open>The codecs of index.ts\<close>

text \<open>
  Each codec is \<^verbatim>\<open>D.lazy(name, () => D.struct({...}))\<close>, with the fields in the order of
  the source. The source may name a codec before declaring it, since the thunks run at
  decoding time only; here the codecs stand in dependency order.
\<close>

definition TagCodec :: decoder where
  "TagCodec = D_lazy ''Tag'' (D_struct
       [(''name'', D_string),
        (''value'', D_nullable D_string)])"

definition TagSetCodec :: decoder where
  "TagSetCodec = D_lazy ''TagSet'' (D_struct
       [(''tag'', D_array TagCodec)])"

definition IndividualValueSetCodec :: decoder where
  "IndividualValueSetCodec = D_lazy ''IndividualValueSet'' (D_struct
       [(''values'', D_array D_number),
        (''start_index'', D_nullable D_string),
        (''end_index'', D_nullable D_string)])"

definition SIUnitCodec :: decoder where
  "SIUnitCodec = D_lazy ''SIUnit'' (D_struct
       [(''factor'', D_nullable D_string),
        (''exponent'', D_nullable D_string),
        (''offset'', D_nullable D_string)])"

definition UnitCodec :: decoder where
  "UnitCodec = D_lazy ''Unit'' (D_struct
       [(''label'', D_string),
        (''quantity'', D_nullable D_string),
        (''si_unit'', D_array SIUnitCodec)])"

definition SeriesCodec :: decoder where
  "SeriesCodec = D_lazy ''Series'' (D_struct
       [(''name'', D_string),
        (''dependency'', D_string),
        (''series_id'', D_string),
        (''series_type'', D_string),
        (''visible'', D_nullable D_string),
        (''plot_scale'', D_nullable D_string),
        (''value_set'', D_nullable IndividualValueSetCodec),
        (''unit'', D_nullable UnitCodec)])"

definition SeriesSetCodec :: decoder where
  "SeriesSetCodec = D_lazy ''SeriesSet'' (D_struct
       [(''name'', D_string),
        (''length'', D_string),
        (''series'', D_array SeriesCodec)])"

definition ParameterCodec :: decoder where
  "ParameterCodec = D_lazy ''Parameter'' (D_struct
       [(''name'', D_string),
        (''parameter_type'', D_string),
        (''value'', D_number),
        (''unit'', D_nullable UnitCodec)])"

text \<open>
  \<^verbatim>\<open>CategoryCodec\<close> refers to itself inside its thunk. \<open>CategoryStruct\<close> is the body of
  the thunk with that reference as a parameter; \<open>CategoryCodec\<close> ties the knot.
\<close>

definition CategoryStruct :: "decoder \<Rightarrow> decoder" where
  "CategoryStruct self = D_struct
       [(''name'', D_string),
        (''parameter'', D_array ParameterCodec),
        (''series_set'', D_array SeriesSetCodec),
        (''category'', D_array self)]"

lemma size_get_prop: "get_prop u key = v \<Longrightarrow> v \<noteq> JUndefined \<Longrightarrow> size v < size u"
proof (cases u)
  case (JObj kvs)
  assume g: "get_prop u key = v" and nz: "v \<noteq> JUndefined"
  from g nz JObj have "map_of kvs key = Some v"
    by (auto split: option.splits)
  then have "(key, v) \<in> set kvs" by (rule map_of_SomeD)
  then have "size v < Suc (size_list (size_prod (\<lambda>_. 0) size) kvs)"
    by (induction kvs) auto
  with JObj show ?thesis by simp
qed auto

lemma size_elements: "x \<in> set (elements u) \<Longrightarrow> size x < size u"
proof (cases u)
  case (JArr xs)
  assume "x \<in> set (elements u)"
  with JArr have "x \<in> set xs" by simp
  then have "size x < Suc (size_list size xs)"
    by (induction xs) auto
  with JArr show ?thesis by simp
qed auto

lemma D_array_unfold:
  "D_array item u = (if G_UnknownArray u then fromArray item (elements u)
                     else Inl (Leaf u ''Array<unknown>''))"
  by (simp add: D_array_def UnknownArray_def fromGuard_def)

lemma D_struct_unfold:
  "D_struct properties u = (if G_UnknownRecord u then fromStruct properties u
                            else Inl (Leaf u ''Record<string, unknown>''))"
  by (simp add: D_struct_def UnknownRecord_def fromGuard_def)

lemma D_array_cong [fundef_cong]:
  assumes "u = u'" and "\<And>x. x \<in> set (elements u') \<Longrightarrow> f x = g x"
  shows "D_array f u = D_array g u'"
proof -
  have "traverseArrayWithIndex (elements u') (\<lambda>index i. mapLeft (\<lambda>e. Index index Optional e) (f i))
      = traverseArrayWithIndex (elements u') (\<lambda>index i. mapLeft (\<lambda>e. Index index Optional e) (g i))"
    unfolding traverseArrayWithIndex_def
    by (intro foldl_cong refl) (auto simp: in_set_enumerate_eq assms(2))
  then show ?thesis
    by (simp add: D_array_unfold fromArray_def assms(1))
qed

lemma CategoryStruct_cong [fundef_cong]:
  assumes "u = u'"
    and "\<And>x. x \<in> set (elements (get_prop u' ''category'')) \<Longrightarrow> f x = g x"
  shows "CategoryStruct f u = CategoryStruct g u'"
proof -
  have "D_array f (get_prop u' ''category'') = D_array g (get_prop u' ''category'')"
    by (rule D_array_cong) (simp_all add: assms(2))
  then show ?thesis
    by (simp add: CategoryStruct_def D_struct_unfold fromStruct_def
        traverseRecordWithIndex_def assms(1))
qed

lemma D_lazy_cong [fundef_cong]:
  assumes "u = u'" and "f u' = g u'"
  shows "D_lazy ident f u = D_lazy ident g u'"
  using assms by (simp add: D_lazy_def)

function CategoryCodec :: decoder where
  "CategoryCodec u = D_lazy ''Category'' (CategoryStruct CategoryCodec) u"
  by pat_completeness auto
termination
proof (relation "measure size")
  fix u x :: jsval
  assume "x \<in> set (elements (get_prop u ''category''))"
  then have "size x < size (get_prop u ''category'')"
    by (rule size_elements)
  moreover have "size (get_prop u ''category'') \<le> size u"
    using size_get_prop [of u "''category''"] by (cases "get_prop u ''category'' = JUndefined") auto
  ultimately show "(x, u) \<in> measure size" by simp
qed simp

definition SampleCodec :: decoder where
  "SampleCodec = D_lazy ''Sample'' (D_struct
       [(''name'', D_string),
        (''sample_id'', D_string),
        (''barcode'', D_nullable D_string),
        (''comment'', D_nullable D_string),
        (''derived'', D_nullable D_string),
        (''container_type'', D_nullable D_string),
        (''container_id'', D_nullable D_string),
        (''location_in_container'', D_nullable D_string),
        (''source_data_location'', D_nullable D_string),
        (''tag_set'', D_nullable TagSetCodec),
        (''category'', D_array CategoryCodec)])"

definition SampleSetCodec :: decoder where
  "SampleSetCodec = D_lazy ''SampleSet'' (D_struct
       [(''sample'', D_array SampleCodec)])"

definition DiffCodec :: decoder where
  "DiffCodec = D_lazy ''Diff'' (D_struct
       [(''scope'', D_string),
        (''changed_item'', D_string),
        (''old_value'', D_string),
        (''new_value'', D_string)])"

definition AuthorCodec :: decoder where
  "AuthorCodec = D_lazy ''Author'' (D_struct
       [(''user_type'', D_string),
        (''name'', D_string),
        (''affiliation'', D_nullable D_string),
        (''role'', D_nullable D_string),
        (''email'', D_nullable D_string),
        (''phone'', D_nullable D_string),
        (''location'', D_nullable D_string)])"

definition SoftwareCodec :: decoder where
  "SoftwareCodec = D_lazy ''Software'' (D_struct
       [(''name'', D_string),
        (''manufacturer'', D_nullable D_string),
        (''version'', D_nullable D_string),
        (''operating_system'', D_nullable D_string)])"

definition AuditTrailEntryCodec :: decoder where
  "AuditTrailEntryCodec = D_lazy ''AuditTrailEntry'' (D_struct
       [(''timestamp'', D_string),
        (''author'', AuthorCodec),
        (''action'', D_string),
        (''software'', D_nullable SoftwareCodec),
        (''reason'', D_nullable D_string),
        (''comment'', D_nullable D_string),
        (''diff'', D_array DiffCodec),
        (''reference'', D_array D_string)])"

definition AuditTrailEntrySetCodec :: decoder where
  "AuditTrailEntrySetCodec = D_lazy ''AuditTrailEntrySet'' (D_struct
       [(''audit_trail_entry'', D_array AuditTrailEntryCodec)])"

definition ResultCodec :: decoder where
  "ResultCodec = D_lazy ''Result'' (D_struct
       [(''name'', D_string),
        (''series_set'', D_nullable SeriesSetCodec),
        (''category'', D_array CategoryCodec)])"

definition DeviceCodec :: decoder where
  "DeviceCodec = D_lazy ''Device'' (D_struct
       [(''name'', D_string),
        (''device_identifier'', D_nullable D_string),
        (''manufacturer'', D_nullable D_string),
        (''firmware_version'', D_nullable D_string),
        (''serial_number'', D_nullable D_string)])"

definition MethodCodec :: decoder where
  "MethodCodec = D_lazy ''Method'' (D_struct
       [(''name'', D_nullable D_string),
        (''author'', D_nullable AuthorCodec),
        (''device'', D_nullable DeviceCodec),
        (''software'', D_nullable SoftwareCodec),
        (''category'', D_array CategoryCodec)])"

definition ExtensionCodec :: decoder where
  "ExtensionCodec = D_lazy ''Extension'' (D_struct
       [(''uri'', D_string),
        (''name'', D_string),
        (''sha256'', D_nullable D_string)])"

definition TechniqueCodec :: decoder where
  "TechniqueCodec = D_lazy ''Technique'' (D_struct
       [(''name'', D_string),
        (''uri'', D_string),
        (''sha256'', D_nullable D_string),
        (''extension'', D_array ExtensionCodec)])"

definition ExperimentDataReferenceCodec :: decoder where
  "ExperimentDataReferenceCodec = D_lazy ''ExperimentDataReference'' (D_struct
       [(''role'', D_string),
        (''data_purpose'', D_string),
        (''experiment_step_id'', D_string)])"

definition ExperimentDataBulkReferenceCodec :: decoder where
  "ExperimentDataBulkReferenceCodec = D_lazy ''ExperimentDataBulkReference'' (D_struct
       [(''role'', D_string),
        (''data_purpose'', D_string),
        (''experiment_step_id_prefix'', D_string)])"

definition ExperimentDataReferenceSetCodec :: decoder where
  "ExperimentDataReferenceSetCodec = D_lazy ''ExperimentDataReferenceSet'' (D_struct
       [(''experiment_data_reference'', D_array ExperimentDataReferenceCodec),
        (''experiment_data_bulk_reference'', D_array ExperimentDataBulkReferenceCodec)])"

definition EndValueCodec :: decoder where
  "EndValueCodec = D_lazy ''EndValue'' (D_struct
       [(''value'', D_number)])"

definition StartValueCodec :: decoder where
  "StartValueCodec = D_lazy ''StartValue'' (D_struct
       [(''value'', D_number)])"

definition ParentDataPointReferenceCodec :: decoder where
  "ParentDataPointReferenceCodec = D_lazy ''ParentDataPointReference'' (D_struct
       [(''series_id'', D_string),
        (''start_value'', StartValueCodec),
        (''end_value'', D_nullable EndValueCodec)])"

definition ParentDataPointReferenceSetCodec :: decoder where
  "ParentDataPointReferenceSetCodec = D_lazy ''ParentDataPointReferenceSet'' (D_struct
       [(''parent_data_point_reference'', D_array ParentDataPointReferenceCodec)])"

definition SampleReferenceCodec :: decoder where
  "SampleReferenceCodec = D_lazy ''SampleReference'' (D_struct
       [(''sample_id'', D_string),
        (''role'', D_string),
        (''sample_purpose'', D_string)])"

definition SampleInheritanceCodec :: decoder where
  "SampleInheritanceCodec = D_lazy ''SampleInheritance'' (D_struct
       [(''role'', D_string),
        (''sample_purpose'', D_string)])"

definition SampleReferenceSetCodec :: decoder where
  "SampleReferenceSetCodec = D_lazy ''SampleReferenceSet'' (D_struct
       [(''sample_reference'', D_array SampleReferenceCodec),
        (''sample_inheritance'', D_array SampleInheritanceCodec)])"

definition InfrastructureCodec :: decoder where
  "InfrastructureCodec = D_lazy ''Infrastructure'' (D_struct
       [(''sample_reference_set'', D_nullable SampleReferenceSetCodec),
        (''parent_data_point_reference_set'', D_nullable ParentDataPointReferenceSetCodec),
        (''experiment_data_reference_set'', D_nullable ExperimentDataReferenceSetCodec),
        (''timestamp'', D_nullable D_string)])"

definition TemplateCodec :: decoder where
  "TemplateCodec = D_lazy ''Template'' (D_struct
       [(''name'', D_string),
        (''template_id'', D_string),
        (''source_data_location'', D_nullable D_string),
        (''tag_set'', D_nullable TagSetCodec),
        (''technique'', D_nullable TechniqueCodec),
        (''infrastructure'', D_nullable InfrastructureCodec),
        (''method'', D_nullable MethodCodec),
        (''result'', D_array ResultCodec)])"

definition ExperimentStepCodec :: decoder where
  "ExperimentStepCodec = D_lazy ''ExperimentStep'' (D_struct
       [(''name'', D_string),
        (''experiment_step_id'', D_string),
        (''template_used'', D_nullable D_string),
        (''comment'', D_nullable D_string),
        (''source_data_location'', D_nullable D_string),
        (''tag_set'', D_nullable TagSetCodec),
        (''technique'', D_nullable TechniqueCodec),
        (''infrastructure'', D_nullable InfrastructureCodec),
        (''method'', D_nullable MethodCodec),
        (''result'', D_array ResultCodec)])"

definition ExperimentStepSetCodec :: decoder where
  "ExperimentStepSetCodec = D_lazy ''ExperimentStepSet'' (D_struct
       [(''experiment_step'', D_array ExperimentStepCodec),
        (''template'', D_array TemplateCodec)])"

definition AnIMLCodec :: decoder where
  "AnIMLCodec = D_lazy ''AnIML'' (D_struct
       [(''version'', D_string),
        (''sample_set'', D_nullable SampleSetCodec),
        (''experiment_step_set'', D_nullable ExperimentStepSetCodec),
        (''audit_trail_entry_set'', D_nullable AuditTrailEntrySetCodec)])"

definition IncrementCodec :: decoder where
  "IncrementCodec = D_lazy ''Increment'' (D_struct
       [(''value'', D_number)])"

definition AutoIncrementedValueSetCodec :: decoder where
  "AutoIncrementedValueSetCodec = D_lazy ''AutoIncrementedValueSet'' (D_struct
       [(''start_value'', StartValueCodec),
        (''increment'', IncrementCodec),
        (''start_index'', D_nullable D_string),
        (''end_index'', D_nullable D_string)])"

definition EncodedValueSetCodec :: decoder where
  "EncodedValueSetCodec = D_lazy ''EncodedValueSet'' (D_struct
       [(''start_index'', D_nullable D_string),
        (''end_index'', D_nullable D_string)])"

section \<open>The entry point\<close>

text \<open>
  \<^verbatim>\<open>validate\<close> runs the codec and throws \<^verbatim>\<open>new Error(D.draw(result.left))\<close> on a
  failure. \<open>Throw e\<close> is that exception; its message is the rendering of \<open>e\<close> by
  \<^verbatim>\<open>D.draw\<close>, which is kept as the error it renders.
\<close>

datatype 'a outcome = Return 'a | Throw decode_error

definition validate :: "decoder \<Rightarrow> jsval \<Rightarrow> jsval outcome" where
  "validate codec v = (case codec v of Inl e \<Rightarrow> Throw e | Inr a \<Rightarrow> Return a)"

section \<open>Example inputs\<close>

text \<open>
  The inputs at which the statements below are evaluated. \<open>doc_minimal v\<close> is the
  smallest document that the root codec accepts, with version \<open>v\<close>; \<open>doc_extra\<close> adds
  two properties that the codec does not declare, and \<open>doc_no_sample_set\<close> leaves one
  declared key out.
\<close>

definition doc_minimal :: "string \<Rightarrow> jsval" where
  "doc_minimal version = JObj [(''version'', JStr version), (''sample_set'', JNull),
      (''experiment_step_set'', JNull), (''audit_trail_entry_set'', JNull)]"

definition doc_extra :: jsval where
  "doc_extra = JObj [(''@id'', JStr ''doc1''), (''version'', JStr ''0.90''),
      (''sample_set'', JNull), (''experiment_step_set'', JNull),
      (''audit_trail_entry_set'', JNull), (''note'', JBool True)]"

definition doc_no_sample_set :: jsval where
  "doc_no_sample_set = JObj [(''version'', JStr ''0.90''), (''experiment_step_set'', JNull),
      (''audit_trail_entry_set'', JNull)]"

text \<open>
  A Sample, an ExperimentStep and a Diff with every key of their codecs, and the
  containers that hold the same member twice.
\<close>

definition sample_a :: jsval where
  "sample_a = JObj [(''name'', JStr ''blank''), (''sample_id'', JStr ''s1''), (''barcode'', JNull),
      (''comment'', JNull), (''derived'', JNull), (''container_type'', JNull),
      (''container_id'', JNull), (''location_in_container'', JNull),
      (''source_data_location'', JNull), (''tag_set'', JNull), (''category'', JArr [])]"

definition sample_no_name :: jsval where
  "sample_no_name = JObj [(''sample_id'', JStr ''s1''), (''barcode'', JNull), (''comment'', JNull),
      (''derived'', JNull), (''container_type'', JNull), (''container_id'', JNull),
      (''location_in_container'', JNull), (''source_data_location'', JNull),
      (''tag_set'', JNull), (''category'', JArr [])]"

definition step_a :: jsval where
  "step_a = JObj [(''name'', JStr ''scan''), (''experiment_step_id'', JStr ''e1''),
      (''template_used'', JNull), (''comment'', JNull), (''source_data_location'', JNull),
      (''tag_set'', JNull), (''technique'', JNull), (''infrastructure'', JNull),
      (''method'', JNull), (''result'', JArr [])]"

definition sample_set_dup :: jsval where
  "sample_set_dup = JObj [(''sample'', JArr [sample_a, sample_a])]"

definition step_set_dup :: jsval where
  "step_set_dup = JObj [(''experiment_step'', JArr [step_a, step_a]), (''template'', JArr [])]"

definition diff_bogus :: jsval where
  "diff_bogus = JObj [(''scope'', JStr ''bogus''), (''changed_item'', JStr ''x''),
      (''old_value'', JStr ''a''), (''new_value'', JStr ''b'')]"

definition sample_reference_bogus :: jsval where
  "sample_reference_bogus = JObj [(''sample_id'', JStr ''s1''), (''role'', JStr ''analyte''),
      (''sample_purpose'', JStr ''bogus'')]"


definition ivs_123 :: jsval where
  "ivs_123 = JObj [(''values'', JArr [JNum (Finite 1), JNum (Finite 2), JNum (Finite 3)]),
      (''start_index'', JNull), (''end_index'', JNull)]"

definition auto_10_2 :: jsval where
  "auto_10_2 = JObj [(''start_value'', JObj [(''value'', JNum (Finite 10))]),
      (''increment'', JObj [(''value'', JNum (Finite 2))]),
      (''start_index'', JNull), (''end_index'', JNull)]"

definition series_I_123 :: jsval where
  "series_I_123 = JObj [(''name'', JStr ''counts''), (''dependency'', JStr ''dependent''),
      (''series_id'', JStr ''s1''), (''series_type'', JStr ''I''), (''visible'', JNull),
      (''plot_scale'', JNull), (''value_set'', ivs_123), (''unit'', JNull)]"

definition series_no_values :: jsval where
  "series_no_values = JObj [(''name'', JStr ''time''), (''dependency'', JStr ''independent''),
      (''series_id'', JStr ''s0''), (''series_type'', JStr ''F''), (''visible'', JNull),
      (''plot_scale'', JNull), (''value_set'', JNull), (''unit'', JNull)]"

definition series_auto :: jsval where
  "series_auto = JObj [(''name'', JStr ''time''), (''dependency'', JStr ''independent''),
      (''series_id'', JStr ''s0''), (''series_type'', JStr ''F''), (''visible'', JNull),
      (''plot_scale'', JNull), (''value_set'', auto_10_2), (''unit'', JNull)]"

definition series_bogus :: jsval where
  "series_bogus = JObj [(''name'', JStr ''counts''), (''dependency'', JStr ''bogus''),
      (''series_id'', JStr ''s1''), (''series_type'', JStr ''I''), (''visible'', JNull),
      (''plot_scale'', JNull), (''value_set'', JNull), (''unit'', JNull)]"

definition series_set_dup :: jsval where
  "series_set_dup = JObj [(''name'', JStr ''spectrum''), (''length'', JStr ''3''),
      (''series'', JArr [series_I_123, series_I_123])]"




subsection \<open>The three kinds of value set\<close>

text \<open>
  \<open>is_value_set vs\<close>: the object \<open>vs\<close> has exactly the fields that one of the three
  value-set codecs declares, and that codec decodes it to itself.
\<close>

fun keys :: "jsval \<Rightarrow> string list" where
  "keys (JObj kvs) = map fst kvs"
| "keys _ = []"

definition is_value_set :: "jsval \<Rightarrow> bool" where
  "is_value_set vs \<longleftrightarrow>
     keys vs = [''values'', ''start_index'', ''end_index''] \<and>
       IndividualValueSetCodec vs = Inr vs \<or>
     keys vs = [''start_index'', ''end_index''] \<and>
       EncodedValueSetCodec vs = Inr vs \<or>
     keys vs = [''start_value'', ''increment'', ''start_index'', ''end_index''] \<and>
       AutoIncrementedValueSetCodec vs = Inr vs"

section \<open>What the combinators accept\<close>

subsection \<open>Primitive decoders, nullable and lazy\<close>

lemma D_string_Inr: "D_string u = Inr r \<longleftrightarrow> (\<exists>s. u = JStr s) \<and> r = u"
  by (cases u) (auto simp: D_string_def fromGuard_def)

lemma D_number_Inr: "D_number u = Inr r \<longleftrightarrow> (\<exists>n. u = JNum n \<and> n \<noteq> NaN) \<and> r = u"
  by (cases u) (auto simp: D_number_def fromGuard_def)

lemma D_string_undefined: "D_string JUndefined = Inl (Leaf JUndefined ''string'')"
  by (simp add: D_string_def fromGuard_def)

lemma D_nullable_Inr:
  "D_nullable d u = Inr r \<longleftrightarrow> (u = JNull \<and> r = JNull) \<or> (u \<noteq> JNull \<and> d u = Inr r)"
  by (cases "d u") (auto simp: D_nullable_def)


lemma D_lazy_Inr [simp]: "D_lazy ident d u = Inr r \<longleftrightarrow> d u = Inr r"
  by (cases "d u") (auto simp: D_lazy_def)

lemma D_lazy_Inl: "f u = Inl e \<Longrightarrow> D_lazy ident f u = Inl (Lazy ident e)"
  by (simp add: D_lazy_def)

lemma mapLeft_Inr [simp]: "mapLeft g m = Inr y \<longleftrightarrow> m = Inr y"
  by (cases m) auto

lemma mapRight_Inr: "mapRight g m = Inr y \<longleftrightarrow> (\<exists>a. m = Inr a \<and> y = g a)"
  by (cases m) auto

lemma not_isl_conv: "\<not> isl m \<longleftrightarrow> (\<exists>a. m = Inr a)"
  by (cases m) auto

lemma isl_D_lazy: "isl (D_lazy ident f u) \<longleftrightarrow> isl (f u)"
  by (cases "f u") (simp_all add: D_lazy_def)

lemma isl_D_nullable: "isl (D_nullable d u) \<longleftrightarrow> u \<noteq> JNull \<and> isl (d u)"
  by (cases "d u") (simp_all add: D_nullable_def)

subsection \<open>Arrays\<close>

lemma traverseArray_snoc:
  "traverseArrayWithIndex (xs @ [x]) f =
     ap (mapRight (\<lambda>bs b. bs @ [b]) (traverseArrayWithIndex xs f)) (f (length xs) x)"
  by (simp add: traverseArrayWithIndex_def enumerate_append_eq)

lemma traverseArray_Nil [simp]: "traverseArrayWithIndex [] f = Inr []"
  by (simp add: traverseArrayWithIndex_def)

lemma ap_push_Inr:
  "ap (mapRight (\<lambda>bs b. bs @ [b]) m) fb = Inr ys \<longleftrightarrow>
     (\<exists>bs b. m = Inr bs \<and> fb = Inr b \<and> ys = bs @ [b])"
  by (cases m; cases fb) auto

lemma traverseArray_Inr:
  "traverseArrayWithIndex xs f = Inr ys \<longleftrightarrow>
     length ys = length xs \<and> (\<forall>i < length xs. f i (xs ! i) = Inr (ys ! i))"
proof (induction xs arbitrary: ys rule: rev_induct)
  case Nil
  then show ?case by auto
next
  case (snoc x xs)
  show ?case
  proof
    assume "traverseArrayWithIndex (xs @ [x]) f = Inr ys"
    then obtain bs b where m: "traverseArrayWithIndex xs f = Inr bs" and b: "f (length xs) x = Inr b"
      and ys: "ys = bs @ [b]"
      by (auto simp: traverseArray_snoc ap_push_Inr)
    from m snoc.IH have l: "length bs = length xs" and a: "\<forall>i < length xs. f i (xs ! i) = Inr (bs ! i)"
      by auto
    show "length ys = length (xs @ [x]) \<and> (\<forall>i<length (xs @ [x]). f i ((xs @ [x]) ! i) = Inr (ys ! i))"
      using l a b ys by (auto simp: nth_append less_Suc_eq)
  next
    assume r: "length ys = length (xs @ [x]) \<and> (\<forall>i<length (xs @ [x]). f i ((xs @ [x]) ! i) = Inr (ys ! i))"
    then obtain bs b where ys: "ys = bs @ [b]" and l: "length bs = length xs"
      by (cases ys rule: rev_cases) auto
    from r ys l have "\<forall>i < length xs. f i (xs ! i) = Inr (bs ! i)"
      by (auto simp: nth_append less_Suc_eq)
    with l snoc.IH have m: "traverseArrayWithIndex xs f = Inr bs" by auto
    from r ys l have "f (length xs) x = Inr b"
      by (auto simp: nth_append less_Suc_eq)
    with m ys show "traverseArrayWithIndex (xs @ [x]) f = Inr ys"
      by (simp add: traverseArray_snoc)
  qed
qed

lemma fromArray_Inr:
  "fromArray item xs = Inr r \<longleftrightarrow> (\<exists>ys. r = JArr ys \<and> list_all2 (\<lambda>x y. item x = Inr y) xs ys)"
  by (auto simp: fromArray_def mapRight_Inr traverseArray_Inr list_all2_conv_all_nth)

lemma D_array_Inr:
  "D_array item u = Inr r \<longleftrightarrow>
     (\<exists>xs ys. u = JArr xs \<and> r = JArr ys \<and> list_all2 (\<lambda>x y. item x = Inr y) xs ys)"
  by (cases u) (auto simp: D_array_unfold fromArray_Inr)

lemma items_all2_conv:
  "list_all2 (\<lambda>x y. item x = Inr y) xs ys \<longleftrightarrow>
     (\<forall>x \<in> set xs. \<not> isl (item x)) \<and> ys = map (\<lambda>x. projr (item x)) xs"
proof (induction xs arbitrary: ys)
  case Nil
  then show ?case by auto
next
  case (Cons x xs)
  show ?case
    by (cases "item x") (auto simp: list_all2_Cons1 Cons.IH)
qed

lemma D_array_accepts:
  "D_array item u = Inr r \<longleftrightarrow>
     G_UnknownArray u \<and> (\<forall>x \<in> set (elements u). \<not> isl (item x)) \<and>
     r = JArr (map (\<lambda>x. projr (item x)) (elements u))"
  by (cases u) (auto simp: D_array_Inr items_all2_conv)

lemma D_array_empty: "D_array item (JArr []) = Inr (JArr [])"
  by (simp add: D_array_accepts)

lemma D_array_all:
  "(\<exists>r. D_array item (JArr xs) = Inr r) \<longleftrightarrow> (\<forall>x \<in> set xs. \<exists>y. item x = Inr y)"
  by (simp add: D_array_accepts not_isl_conv)

lemma D_array_twice: "item x = Inr y \<Longrightarrow> D_array item (JArr [x, x]) = Inr (JArr [y, y])"
  by (simp add: D_array_accepts)

lemma D_array_number_id: "D_array D_number v = Inr r \<Longrightarrow> r = v"
proof -
  assume a: "D_array D_number v = Inr r"
  then have g: "G_UnknownArray v" and ok: "\<forall>x \<in> set (elements v). \<not> isl (D_number x)"
    and r: "r = JArr (map (\<lambda>x. projr (D_number x)) (elements v))"
    by (simp_all add: D_array_accepts)
  have "map (\<lambda>x. projr (D_number x)) (elements v) = elements v"
  proof (rule map_idI)
    fix x assume "x \<in> set (elements v)"
    with ok obtain y where y: "D_number x = Inr y" by (auto simp: not_isl_conv)
    then have "y = x" by (simp add: D_number_Inr)
    with y show "projr (D_number x) = x" by simp
  qed
  with r g show ?thesis by (cases v) simp_all
qed

lemma D_array_number_accepts:
  "NaN \<notin> set ns \<Longrightarrow> D_array D_number (JArr (map JNum ns)) = Inr (JArr (map JNum ns))"
proof -
  assume n: "NaN \<notin> set ns"
  have "\<forall>x \<in> set (map JNum ns). D_number x = Inr x"
    using n by (auto simp: D_number_Inr)
  then have "\<forall>x \<in> set (map JNum ns). \<not> isl (D_number x)"
    and "map (\<lambda>x. projr (D_number x)) (map JNum ns) = map JNum ns"
    by (simp_all add: map_idI)
  then show ?thesis by (simp add: D_array_accepts)
qed

subsection \<open>Structs\<close>

lemma traverseRecord_snoc:
  "traverseRecordWithIndex (r @ [(k, a)]) f =
     ap (mapRight (\<lambda>r b. AList.update k b r) (traverseRecordWithIndex r f)) (f k a)"
  by (simp add: traverseRecordWithIndex_def)

lemma traverseRecord_Nil [simp]: "traverseRecordWithIndex [] f = Inr []"
  by (simp add: traverseRecordWithIndex_def)

lemma ap_update_Inr:
  "ap (mapRight (\<lambda>r b. AList.update k b r) m) fb = Inr kvs \<longleftrightarrow>
     (\<exists>r b. m = Inr r \<and> fb = Inr b \<and> kvs = AList.update k b r)"
  by (cases m; cases fb) auto

lemma update_fresh: "k \<notin> fst ` set al \<Longrightarrow> AList.update k v al = al @ [(k, v)]"
  by (induction al) auto

lemma traverseRecord_Inr:
  "distinct (map fst r) \<Longrightarrow>
   traverseRecordWithIndex r f = Inr kvs \<longleftrightarrow>
     list_all2 (\<lambda>(k, a) (k', v). k' = k \<and> f k a = Inr v) r kvs"
proof (induction r arbitrary: kvs rule: rev_induct)
  case Nil
  then show ?case by auto
next
  case (snoc p r)
  obtain k a where p: "p = (k, a)" by (cases p)
  from snoc.prems p have d: "distinct (map fst r)" and fresh: "k \<notin> fst ` set r"
    by auto
  note IH = snoc.IH [OF d]
  show ?case
  proof
    assume "traverseRecordWithIndex (r @ [p]) f = Inr kvs"
    then obtain r0 b where m: "traverseRecordWithIndex r f = Inr r0" and b: "f k a = Inr b"
      and kvs: "kvs = AList.update k b r0"
      by (auto simp: p traverseRecord_snoc ap_update_Inr)
    from m IH have l: "list_all2 (\<lambda>(k, a) (k', v). k' = k \<and> f k a = Inr v) r r0"
      by simp
    then have "map fst r0 = map fst r"
      by (induction rule: list_all2_induct) auto
    then have "fst ` set r0 = fst ` set r"
      by (metis set_map)
    with fresh kvs have "kvs = r0 @ [(k, b)]"
      by (simp add: update_fresh)
    with l b show "list_all2 (\<lambda>(k, a) (k', v). k' = k \<and> f k a = Inr v) (r @ [p]) kvs"
      by (simp add: p list_all2_appendI)
  next
    assume "list_all2 (\<lambda>(k, a) (k', v). k' = k \<and> f k a = Inr v) (r @ [p]) kvs"
    then obtain r0 q where kvs: "kvs = r0 @ [q]"
      and l: "list_all2 (\<lambda>(k, a) (k', v). k' = k \<and> f k a = Inr v) r r0"
      and q: "(\<lambda>(k, a) (k', v). k' = k \<and> f k a = Inr v) p q"
      by (auto simp: list_all2_append1 list_all2_Cons1)
    from q p obtain b where qb: "q = (k, b)" and b: "f k a = Inr b"
      by (cases q) auto
    from l IH have m: "traverseRecordWithIndex r f = Inr r0" by simp
    from l have "map fst r0 = map fst r"
      by (induction rule: list_all2_induct) auto
    then have "fst ` set r0 = fst ` set r"
      by (metis set_map)
    with fresh have "AList.update k b r0 = r0 @ [(k, b)]"
      by (simp add: update_fresh)
    with m b kvs qb show "traverseRecordWithIndex (r @ [p]) f = Inr kvs"
      by (simp add: p traverseRecord_snoc)
  qed
qed

lemma fromStruct_Inr:
  "distinct (map fst ps) \<Longrightarrow>
   fromStruct ps u = Inr r \<longleftrightarrow>
     (\<exists>kvs. r = JObj kvs \<and> list_all2 (\<lambda>(k, d) (k', v). k' = k \<and> d (get_prop u k) = Inr v) ps kvs)"
  by (auto simp: fromStruct_def mapRight_Inr traverseRecord_Inr)

lemma D_struct_Inr:
  "distinct (map fst ps) \<Longrightarrow>
   D_struct ps u = Inr r \<longleftrightarrow>
     G_UnknownRecord u \<and>
     (\<exists>kvs. r = JObj kvs \<and> list_all2 (\<lambda>(k, d) (k', v). k' = k \<and> d (get_prop u k) = Inr v) ps kvs)"
  by (auto simp: D_struct_unfold fromStruct_Inr)

lemma fields_all2_conv:
  "list_all2 (\<lambda>(k, d) (k', v). k' = k \<and> d (get_prop u k) = Inr v) ps kvs \<longleftrightarrow>
     (\<forall>(k, d) \<in> set ps. \<not> isl (d (get_prop u k))) \<and>
     kvs = map (\<lambda>(k, d). (k, projr (d (get_prop u k)))) ps"
proof (induction ps arbitrary: kvs)
  case Nil
  then show ?case by auto
next
  case (Cons p ps)
  obtain k d where p: "p = (k, d)" by (cases p)
  show ?case
    by (cases "d (get_prop u k)") (auto simp: p list_all2_Cons1 Cons.IH)
qed

lemma D_struct_accepts:
  "distinct (map fst ps) \<Longrightarrow>
   D_struct ps u = Inr r \<longleftrightarrow>
     G_UnknownRecord u \<and> (\<forall>(k, d) \<in> set ps. \<not> isl (d (get_prop u k))) \<and>
     r = JObj (map (\<lambda>(k, d). (k, projr (d (get_prop u k)))) ps)"
  by (simp add: D_struct_Inr fields_all2_conv) blast

lemma ap_Inl_left:
  "m = Inl e \<Longrightarrow> \<exists>e'. ap (mapRight g m) fb = Inl e' \<and> set (toForest e) \<subseteq> set (toForest e')"
  by (cases fb) auto

lemma ap_Inl_right:
  "fb = Inl e \<Longrightarrow> \<exists>e'. ap (mapRight g m) fb = Inl e' \<and> set (toForest e) \<subseteq> set (toForest e')"
  by (cases m) auto

lemma traverseRecord_Inl:
  "(k, a) \<in> set r \<Longrightarrow> f k a = Inl e0 \<Longrightarrow>
   \<exists>e. traverseRecordWithIndex r f = Inl e \<and> set (toForest e0) \<subseteq> set (toForest e)"
proof (induction r rule: rev_induct)
  case Nil
  then show ?case by simp
next
  case (snoc p r)
  obtain k' a' where p: "p = (k', a')" by (cases p)
  show ?case
  proof (cases "(k, a) \<in> set r")
    case True
    with snoc obtain e where "traverseRecordWithIndex r f = Inl e"
      and "set (toForest e0) \<subseteq> set (toForest e)" by blast
    then show ?thesis
      using ap_Inl_left [of "traverseRecordWithIndex r f" e "\<lambda>r b. AList.update k' b r" "f k' a'"]
      by (auto simp: p traverseRecord_snoc)
  next
    case False
    with snoc.prems p have "k' = k" "a' = a" by auto
    with snoc.prems show ?thesis
      using ap_Inl_right [of "f k a" e0 "\<lambda>r b. AList.update k b r" "traverseRecordWithIndex r f"]
      by (auto simp: p traverseRecord_snoc)
  qed
qed

lemma D_struct_Inl:
  assumes "G_UnknownRecord u" and "(k, d) \<in> set ps" and "d (get_prop u k) = Inl e0"
  shows "\<exists>e. D_struct ps u = Inl e \<and> Key k Required e0 \<in> set (toForest e)"
proof -
  let ?f = "\<lambda>key decoder. mapLeft (\<lambda>e. Key key Required e) (decoder (get_prop u key))"
  from assms(3) have "?f k d = Inl (Key k Required e0)" by simp
  from traverseRecord_Inl [of k d ps ?f, OF assms(2) this]
  obtain e where "traverseRecordWithIndex ps ?f = Inl e"
    and "Key k Required e0 \<in> set (toForest e)" by auto
  with assms(1) show ?thesis
    by (simp add: D_struct_unfold fromStruct_def)
qed

lemma get_prop_undefined: "\<not> has_key u k \<Longrightarrow> get_prop u k = JUndefined"
proof (cases u)
  case (JObj kvs)
  assume "\<not> has_key u k"
  with JObj have "k \<notin> fst ` set kvs" by simp
  then have "map_of kvs k = None" by (simp add: map_of_eq_None_iff)
  with JObj show ?thesis by simp
qed auto

lemma D_struct_missing_key:
  assumes "G_UnknownRecord u" and "(k, d) \<in> set ps" and "\<not> has_key u k"
    and "d JUndefined = Inl e0"
  shows "\<exists>e. D_struct ps u = Inl e \<and> Key k Required e0 \<in> set (toForest e)"
  using D_struct_Inl [OF assms(1,2), of e0] assms(3,4) by (simp add: get_prop_undefined)

lemma isl_undefined:
  "isl (D_string JUndefined)" "isl (D_number JUndefined)" "isl (D_array item JUndefined)"
  "isl (D_array item JNull)" "isl (D_struct ps JUndefined)"
  by (simp_all add: D_string_def D_number_def fromGuard_def D_array_unfold D_struct_unfold)

lemma D_struct_needs_key:
  assumes "D_struct ps u = Inr r" and "(k, d) \<in> set ps" and "isl (d JUndefined)"
  shows "has_key u k"
proof (rule ccontr)
  assume n: "\<not> has_key u k"
  from assms(1) have g: "G_UnknownRecord u"
    by (simp add: D_struct_unfold split: if_splits)
  from assms(3) obtain e0 where "d JUndefined = Inl e0"
    by (cases "d JUndefined") auto
  from D_struct_missing_key [OF g assms(2) n this] assms(1) show False by auto
qed

lemma map_of_decoded:
  "distinct (map fst ps) \<Longrightarrow> (k, d) \<in> set ps \<Longrightarrow>
   map_of (map (\<lambda>(k, d). (k, g k d)) ps) k = Some (g k d)"
  by (induction ps) (auto simp: rev_image_eqI)

lemma D_struct_result:
  assumes "distinct (map fst ps)" and "D_struct ps u = Inr r"
  shows "(\<exists>kvs. r = JObj kvs \<and> map fst kvs = map fst ps) \<and>
         (\<forall>(k, d) \<in> set ps. d (get_prop u k) = Inr (get_prop r k))"
proof -
  let ?kvs = "map (\<lambda>(k, d). (k, projr (d (get_prop u k)))) ps"
  from assms have ok: "\<forall>(k, d) \<in> set ps. \<not> isl (d (get_prop u k))" and r: "r = JObj ?kvs"
    by (simp_all add: D_struct_accepts)
  have keys: "map fst ?kvs = map fst ps"
    by (induction ps) auto
  have "d (get_prop u k) = Inr (get_prop r k)" if "(k, d) \<in> set ps" for k d
  proof -
    from that ok have "\<not> isl (d (get_prop u k))" by auto
    moreover have "get_prop r k = projr (d (get_prop u k))"
      using map_of_decoded [OF assms(1) that, of "\<lambda>k d. projr (d (get_prop u k))"] r by simp
    ultimately show ?thesis by (cases "d (get_prop u k)") simp_all
  qed
  with r keys show ?thesis by blast
qed

subsection \<open>The entry point\<close>

lemma validate_Return: "validate codec v = Return r \<longleftrightarrow> codec v = Inr r"
  by (simp add: validate_def split: sum.splits)

lemma validate_Throw: "validate codec v = Throw e \<longleftrightarrow> codec v = Inl e"
  by (simp add: validate_def split: sum.splits)

section \<open>What the codecs accept\<close>

lemma AnIMLCodec_Inr:
  "AnIMLCodec u = Inr r \<longleftrightarrow>
     G_UnknownRecord u \<and>
     (\<exists>v s e a. r = JObj [(''version'', v), (''sample_set'', s), (''experiment_step_set'', e),
                          (''audit_trail_entry_set'', a)] \<and>
        D_string (get_prop u ''version'') = Inr v \<and>
        D_nullable SampleSetCodec (get_prop u ''sample_set'') = Inr s \<and>
        D_nullable ExperimentStepSetCodec (get_prop u ''experiment_step_set'') = Inr e \<and>
        D_nullable AuditTrailEntrySetCodec (get_prop u ''audit_trail_entry_set'') = Inr a)"
  unfolding AnIMLCodec_def
  by (auto simp: D_struct_accepts not_isl_conv)

lemma SampleSetCodec_Inr:
  "SampleSetCodec u = Inr r \<longleftrightarrow>
     G_UnknownRecord u \<and> D_array SampleCodec (get_prop u ''sample'') = Inr (get_prop r ''sample'') \<and>
     r = JObj [(''sample'', get_prop r ''sample'')]"
  unfolding SampleSetCodec_def
  by (auto simp: D_struct_accepts not_isl_conv)

lemma SampleSetCodec_accepts:
  "SampleSetCodec u = Inr r \<longleftrightarrow>
     G_UnknownRecord u \<and>
     (\<exists>ss. r = JObj [(''sample'', ss)] \<and> D_array SampleCodec (get_prop u ''sample'') = Inr ss)"
  unfolding SampleSetCodec_def
  by (auto simp: D_struct_accepts not_isl_conv)

lemma ExperimentStepSetCodec_Inr:
  "ExperimentStepSetCodec u = Inr r \<longleftrightarrow>
     G_UnknownRecord u \<and>
     (\<exists>es ts. r = JObj [(''experiment_step'', es), (''template'', ts)] \<and>
        D_array ExperimentStepCodec (get_prop u ''experiment_step'') = Inr es \<and>
        D_array TemplateCodec (get_prop u ''template'') = Inr ts)"
  unfolding ExperimentStepSetCodec_def
  by (auto simp: D_struct_accepts not_isl_conv)

lemma SeriesSetCodec_Inr:
  "SeriesSetCodec u = Inr r \<longleftrightarrow>
     G_UnknownRecord u \<and>
     (\<exists>n l ss. r = JObj [(''name'', n), (''length'', l), (''series'', ss)] \<and>
        D_string (get_prop u ''name'') = Inr n \<and>
        D_string (get_prop u ''length'') = Inr l \<and>
        D_array SeriesCodec (get_prop u ''series'') = Inr ss)"
  unfolding SeriesSetCodec_def
  by (auto simp: D_struct_accepts not_isl_conv)

lemma SeriesCodec_Inr:
  "SeriesCodec u = Inr r \<longleftrightarrow>
     G_UnknownRecord u \<and>
     (\<exists>n d i t v p vs un.
        r = JObj [(''name'', n), (''dependency'', d), (''series_id'', i), (''series_type'', t),
                  (''visible'', v), (''plot_scale'', p), (''value_set'', vs), (''unit'', un)] \<and>
        D_string (get_prop u ''name'') = Inr n \<and>
        D_string (get_prop u ''dependency'') = Inr d \<and>
        D_string (get_prop u ''series_id'') = Inr i \<and>
        D_string (get_prop u ''series_type'') = Inr t \<and>
        D_nullable D_string (get_prop u ''visible'') = Inr v \<and>
        D_nullable D_string (get_prop u ''plot_scale'') = Inr p \<and>
        D_nullable IndividualValueSetCodec (get_prop u ''value_set'') = Inr vs \<and>
        D_nullable UnitCodec (get_prop u ''unit'') = Inr un)"
  unfolding SeriesCodec_def
  by (auto simp: D_struct_accepts not_isl_conv)

lemma IndividualValueSetCodec_Inr:
  "IndividualValueSetCodec u = Inr r \<longleftrightarrow>
     G_UnknownRecord u \<and>
     (\<exists>v s e. r = JObj [(''values'', v), (''start_index'', s), (''end_index'', e)] \<and>
        D_array D_number (get_prop u ''values'') = Inr v \<and>
        D_nullable D_string (get_prop u ''start_index'') = Inr s \<and>
        D_nullable D_string (get_prop u ''end_index'') = Inr e)"
  unfolding IndividualValueSetCodec_def
  by (auto simp: D_struct_accepts not_isl_conv)

lemma StartValueCodec_Inr:
  "StartValueCodec u = Inr r \<longleftrightarrow>
     G_UnknownRecord u \<and> G_number (get_prop u ''value'') \<and>
     r = JObj [(''value'', get_prop u ''value'')]"
  unfolding StartValueCodec_def
  by (cases "G_number (get_prop u ''value'')")
    (auto simp: D_struct_accepts D_number_def fromGuard_def)

lemma IncrementCodec_Inr:
  "IncrementCodec u = Inr r \<longleftrightarrow>
     G_UnknownRecord u \<and> G_number (get_prop u ''value'') \<and>
     r = JObj [(''value'', get_prop u ''value'')]"
  unfolding IncrementCodec_def
  by (cases "G_number (get_prop u ''value'')")
    (auto simp: D_struct_accepts D_number_def fromGuard_def)

lemma AutoIncrementedValueSetCodec_Inr:
  "AutoIncrementedValueSetCodec u = Inr r \<longleftrightarrow>
     G_UnknownRecord u \<and>
     (\<exists>sv inc si ei.
        r = JObj [(''start_value'', sv), (''increment'', inc), (''start_index'', si),
                  (''end_index'', ei)] \<and>
        StartValueCodec (get_prop u ''start_value'') = Inr sv \<and>
        IncrementCodec (get_prop u ''increment'') = Inr inc \<and>
        D_nullable D_string (get_prop u ''start_index'') = Inr si \<and>
        D_nullable D_string (get_prop u ''end_index'') = Inr ei)"
  unfolding AutoIncrementedValueSetCodec_def
  by (auto simp: D_struct_accepts not_isl_conv)

lemma DiffCodec_Inr:
  "DiffCodec u = Inr r \<longleftrightarrow>
     G_UnknownRecord u \<and>
     (\<exists>s c ov nv.
        r = JObj [(''scope'', s), (''changed_item'', c), (''old_value'', ov), (''new_value'', nv)] \<and>
        D_string (get_prop u ''scope'') = Inr s \<and>
        D_string (get_prop u ''changed_item'') = Inr c \<and>
        D_string (get_prop u ''old_value'') = Inr ov \<and>
        D_string (get_prop u ''new_value'') = Inr nv)"
  unfolding DiffCodec_def
  by (auto simp: D_struct_accepts not_isl_conv)

lemma SampleReferenceCodec_Inr:
  "SampleReferenceCodec u = Inr r \<longleftrightarrow>
     G_UnknownRecord u \<and>
     (\<exists>i ro p.
        r = JObj [(''sample_id'', i), (''role'', ro), (''sample_purpose'', p)] \<and>
        D_string (get_prop u ''sample_id'') = Inr i \<and>
        D_string (get_prop u ''role'') = Inr ro \<and>
        D_string (get_prop u ''sample_purpose'') = Inr p)"
  unfolding SampleReferenceCodec_def
  by (auto simp: D_struct_accepts not_isl_conv)

lemma SampleCodec_sample_a: "SampleCodec sample_a = Inr sample_a"
  unfolding SampleCodec_def
  by (simp add: D_struct_accepts D_string_def fromGuard_def D_nullable_def D_array_empty
      sample_a_def)

lemma ExperimentStepCodec_step_a: "ExperimentStepCodec step_a = Inr step_a"
  unfolding ExperimentStepCodec_def
  by (simp add: D_struct_accepts D_string_def fromGuard_def D_nullable_def D_array_empty
      step_a_def)

lemma SeriesCodec_series_I_123: "SeriesCodec series_I_123 = Inr series_I_123"
  by (simp add: SeriesCodec_Inr D_nullable_Inr D_string_Inr IndividualValueSetCodec_Inr
      D_array_number_accepts [of "[Finite 1, Finite 2, Finite 3]", simplified]
      series_I_123_def ivs_123_def)



lemma D_nullable_string_id: "D_nullable D_string v = Inr s \<Longrightarrow> s = v \<and> D_nullable D_string s = Inr s"
  by (auto simp: D_nullable_Inr D_string_Inr)

lemma IndividualValueSetCodec_result:
  assumes "IndividualValueSetCodec u = Inr vs"
  shows "keys vs = [''values'', ''start_index'', ''end_index''] \<and>
           IndividualValueSetCodec vs = Inr vs"
proof -
  from assms obtain v s e where
    vs: "vs = JObj [(''values'', v), (''start_index'', s), (''end_index'', e)]"
    and v: "D_array D_number (get_prop u ''values'') = Inr v"
    and s: "D_nullable D_string (get_prop u ''start_index'') = Inr s"
    and e: "D_nullable D_string (get_prop u ''end_index'') = Inr e"
    by (auto simp: IndividualValueSetCodec_Inr)
  from v have v': "D_array D_number v = Inr v"
    using D_array_number_id [OF v] by simp
  from s have s': "D_nullable D_string s = Inr s" by (simp add: D_nullable_string_id)
  from e have e': "D_nullable D_string e = Inr e" by (simp add: D_nullable_string_id)
  from v' s' e' have "IndividualValueSetCodec vs = Inr vs"
    by (simp add: vs IndividualValueSetCodec_Inr)
  with vs show ?thesis by simp
qed



lemma SampleSetCodec_iff:
  "(\<exists>r. validate SampleSetCodec u = Return r) \<longleftrightarrow>
     G_UnknownRecord u \<and>
     (\<exists>xs. get_prop u ''sample'' = JArr xs \<and> (\<forall>x \<in> set xs. \<exists>y. SampleCodec x = Inr y))"
proof
  assume "\<exists>r. validate SampleSetCodec u = Return r"
  then obtain ss where g: "G_UnknownRecord u"
    and a: "D_array SampleCodec (get_prop u ''sample'') = Inr ss"
    by (auto simp: validate_Return SampleSetCodec_accepts)
  from a obtain xs where xs: "get_prop u ''sample'' = JArr xs"
    by (auto simp: D_array_Inr)
  with a have "\<exists>r. D_array SampleCodec (JArr xs) = Inr r" by simp
  then have "\<forall>x \<in> set xs. \<exists>y. SampleCodec x = Inr y"
    by (simp only: D_array_all)
  with g xs show "G_UnknownRecord u \<and>
     (\<exists>xs. get_prop u ''sample'' = JArr xs \<and> (\<forall>x \<in> set xs. \<exists>y. SampleCodec x = Inr y))"
    by simp
next
  assume "G_UnknownRecord u \<and>
     (\<exists>xs. get_prop u ''sample'' = JArr xs \<and> (\<forall>x \<in> set xs. \<exists>y. SampleCodec x = Inr y))"
  then obtain xs where g: "G_UnknownRecord u" and xs: "get_prop u ''sample'' = JArr xs"
    and all: "\<forall>x \<in> set xs. \<exists>y. SampleCodec x = Inr y"
    by auto
  from all have "\<exists>r. D_array SampleCodec (JArr xs) = Inr r"
    by (simp only: D_array_all)
  then obtain ss where "D_array SampleCodec (JArr xs) = Inr ss" ..
  with g xs show "\<exists>r. validate SampleSetCodec u = Return r"
    by (simp add: validate_Return SampleSetCodec_accepts)
qed

section \<open>The version of a document\<close>

text \<open>
  Claim C1 says that validation succeeds only if the version is \<^verbatim>\<open>"0.90"\<close>, and the
  documentation of the field in \<^verbatim>\<open>index.ts\<close> says the same (\<^verbatim>\<open>Must be '0.90'\<close>). The
  codec declares \<^verbatim>\<open>version: D.string\<close>: evaluated at documents whose version is
  \<^verbatim>\<open>"0.91"\<close> and \<^verbatim>\<open>"0.9"\<close>, \<open>validate\<close> returns them.
\<close>

theorem version_091_accepted:
  "validate AnIMLCodec (doc_minimal ''0.91'') = Return (doc_minimal ''0.91'') \<and>
   validate AnIMLCodec (doc_minimal ''0.9'') = Return (doc_minimal ''0.9'') \<and>
   get_prop (doc_minimal ''0.91'') ''version'' \<noteq> JStr ''0.90'' \<and>
   get_prop (doc_minimal ''0.9'') ''version'' \<noteq> JStr ''0.90''"
  by (simp add: validate_Return AnIMLCodec_Inr D_string_Inr D_nullable_Inr doc_minimal_def)

section \<open>Identifiers\<close>

text \<open>
  Claim C2, as stated, fails: \<open>SampleSetCodec\<close> is \<^verbatim>\<open>D.array\<close> of the member codec and
  nothing compares identifiers. A SampleSet holding the Sample \<^verbatim>\<open>s1\<close> twice is
  validated.
\<close>

theorem duplicate_sample_ids_accepted:
  "validate SampleSetCodec sample_set_dup = Return sample_set_dup \<and>
   sample_set_dup = JObj [(''sample'', JArr [sample_a, sample_a])] \<and>
   get_prop sample_a ''sample_id'' = JStr ''s1''"
  by (simp add: validate_Return SampleSetCodec_accepts D_array_twice SampleCodec_sample_a
      sample_set_dup_def) (simp add: sample_a_def)

text \<open>
  Claim C2, amended. A SampleSet is accepted exactly when it is an object whose
  \<^verbatim>\<open>sample\<close> is an array each of whose members is accepted as a Sample on its own.
  The \<^verbatim>\<open>sample_id\<close>s are not compared: whenever a Sample is accepted, the SampleSet
  holding it twice is accepted too.
\<close>

theorem SampleSet_accepts_members_independently:
  "((\<exists>r. validate SampleSetCodec u = Return r) \<longleftrightarrow>
      G_UnknownRecord u \<and>
      (\<exists>xs. get_prop u ''sample'' = JArr xs \<and> (\<forall>x \<in> set xs. \<exists>y. SampleCodec x = Inr y))) \<and>
   (SampleCodec x = Inr y \<longrightarrow>
      validate SampleSetCodec (JObj [(''sample'', JArr [x, x])]) =
        Return (JObj [(''sample'', JArr [y, y])]))"
proof
  show "(\<exists>r. validate SampleSetCodec u = Return r) \<longleftrightarrow>
      G_UnknownRecord u \<and>
      (\<exists>xs. get_prop u ''sample'' = JArr xs \<and> (\<forall>x \<in> set xs. \<exists>y. SampleCodec x = Inr y))"
    by (rule SampleSetCodec_iff)
  show "SampleCodec x = Inr y \<longrightarrow>
      validate SampleSetCodec (JObj [(''sample'', JArr [x, x])]) =
        Return (JObj [(''sample'', JArr [y, y])])"
    by (simp add: validate_Return SampleSetCodec_accepts D_array_twice)
qed

theorem SampleSet_accepts_members_independently_witness:
  "SampleCodec sample_a = Inr sample_a \<and>
   get_prop sample_a ''sample_id'' = JStr ''s1'' \<and>
   validate SampleSetCodec (JObj [(''sample'', JArr [sample_a, sample_a])]) =
     Return (JObj [(''sample'', JArr [sample_a, sample_a])])"
proof -
  have i: "get_prop sample_a ''sample_id'' = JStr ''s1''"
    by (simp add: sample_a_def)
  from SampleSet_accepts_members_independently [of _ sample_a sample_a] SampleCodec_sample_a i
  show ?thesis by simp
qed

text \<open>
  The same happens to an ExperimentStepSet holding the step \<^verbatim>\<open>e1\<close> twice and to a
  SeriesSet holding the Series \<^verbatim>\<open>s1\<close> twice, although the documentation of
  \<^verbatim>\<open>experiment_step_id\<close> and \<^verbatim>\<open>series_id\<close> calls these identifiers unique.
\<close>

lemma duplicate_step_and_series_ids_accepted:
  "validate ExperimentStepSetCodec step_set_dup = Return step_set_dup \<and>
   validate SeriesSetCodec series_set_dup = Return series_set_dup"
  by (simp add: validate_Return ExperimentStepSetCodec_Inr SeriesSetCodec_Inr
      D_string_Inr D_array_twice ExperimentStepCodec_step_a
      SeriesCodec_series_I_123 D_array_empty step_set_dup_def series_set_dup_def)

section \<open>The value set of a Series\<close>

text \<open>
  Claim C3, as stated, fails: \<open>SeriesCodec\<close> declares \<^verbatim>\<open>value_set\<close> as
  \<^verbatim>\<open>D.nullable(IndividualValueSetCodec)\<close>, so a Series whose value set is \<^verbatim>\<open>null\<close> is
  validated, with no variant populated.
\<close>

theorem series_without_value_set_accepted:
  "validate SeriesCodec series_no_values = Return series_no_values \<and>
   get_prop series_no_values ''value_set'' = JNull"
  by (simp add: validate_Return SeriesCodec_Inr D_string_Inr D_nullable_Inr series_no_values_def)

text \<open>
  Claim C3, amended. Every validated Series carries at most one value-set variant, drawn
  from the three alternatives: the result has the eight declared fields, among them the
  single field \<^verbatim>\<open>value_set\<close>, which is either \<^verbatim>\<open>null\<close> or one object with exactly the
  fields of one of the three kinds of value set, valid for the codec of that kind.
\<close>

theorem Series_value_set_at_most_one:
  "validate SeriesCodec u = Return r \<longrightarrow>
     (\<exists>n d i t v p vs un.
        r = JObj [(''name'', n), (''dependency'', d), (''series_id'', i), (''series_type'', t),
                  (''visible'', v), (''plot_scale'', p), (''value_set'', vs), (''unit'', un)] \<and>
        (vs = JNull \<or> is_value_set vs))"
proof
  assume "validate SeriesCodec u = Return r"
  then obtain n d i t v p vs un where
    r: "r = JObj [(''name'', n), (''dependency'', d), (''series_id'', i), (''series_type'', t),
                  (''visible'', v), (''plot_scale'', p), (''value_set'', vs), (''unit'', un)]"
    and vs: "D_nullable IndividualValueSetCodec (get_prop u ''value_set'') = Inr vs"
    by (auto simp: validate_Return SeriesCodec_Inr)
  have "vs = JNull \<or> is_value_set vs"
  proof (cases "vs = JNull")
    case False
    with vs have "IndividualValueSetCodec (get_prop u ''value_set'') = Inr vs"
      by (auto simp: D_nullable_Inr)
    from IndividualValueSetCodec_result [OF this] show ?thesis
      by (simp add: is_value_set_def)
  qed simp
  with r show "\<exists>n d i t v p vs un.
        r = JObj [(''name'', n), (''dependency'', d), (''series_id'', i), (''series_type'', t),
                  (''visible'', v), (''plot_scale'', p), (''value_set'', vs), (''unit'', un)] \<and>
        (vs = JNull \<or> is_value_set vs)"
    by (intro exI conjI)
qed

theorem Series_value_set_at_most_one_witness:
  "validate SeriesCodec series_I_123 = Return series_I_123 \<and>
   get_prop series_I_123 ''value_set'' = ivs_123 \<and> ivs_123 \<noteq> JNull \<and> is_value_set ivs_123 \<and>
   validate SeriesCodec series_no_values = Return series_no_values \<and>
   get_prop series_no_values ''value_set'' = JNull"
proof -
  have h: "validate SeriesCodec series_I_123 = Return series_I_123"
    by (simp add: validate_Return SeriesCodec_series_I_123)
  have g: "get_prop series_I_123 ''value_set'' = ivs_123 \<and> ivs_123 \<noteq> JNull"
    by (simp add: series_I_123_def ivs_123_def)
  from Series_value_set_at_most_one [of series_I_123 series_I_123] h
  have v: "ivs_123 = JNull \<or> is_value_set ivs_123"
    by (simp add: series_I_123_def)
  have n: "validate SeriesCodec series_no_values = Return series_no_values"
    by (simp add: validate_Return SeriesCodec_Inr D_string_Inr D_nullable_Inr series_no_values_def)
  from Series_value_set_at_most_one [of series_no_values series_no_values] n
  have "get_prop series_no_values ''value_set'' = JNull"
    by (simp add: series_no_values_def)
  with h g v n show ?thesis by simp
qed

text \<open>
  \<open>is_value_set\<close> holds of an IndividualValueSet and of an AutoIncrementedValueSet, and
  not of an object that mixes the fields of two kinds.
\<close>

lemma is_value_set_examples:
  "is_value_set ivs_123 \<and> is_value_set auto_10_2 \<and>
   \<not> is_value_set (JObj [(''values'', JArr []), (''start_value'', JObj [(''value'', JNum (Finite 10))]),
        (''increment'', JObj [(''value'', JNum (Finite 2))]),
        (''start_index'', JNull), (''end_index'', JNull)])"
  by (simp add: is_value_set_def ivs_123_def auto_10_2_def IndividualValueSetCodec_Inr
      AutoIncrementedValueSetCodec_Inr StartValueCodec_Inr IncrementCodec_Inr D_nullable_Inr
      D_array_number_accepts [of "[Finite 1, Finite 2, Finite 3]", simplified])

text \<open>
  Of the three kinds that the documentation of \<^verbatim>\<open>value_set\<close> lists, the codec accepts
  the first only: a Series holding an AutoIncrementedValueSet is rejected, because the
  object has no \<^verbatim>\<open>values\<close>.
\<close>

lemma series_with_auto_increment_rejected:
  "validate SeriesCodec series_auto =
     Throw (Lazy ''Series'' (Key ''value_set'' Required
       (Concat (Member 0 (Leaf auto_10_2 ''null''))
               (Member 1 (Lazy ''IndividualValueSet''
                  (Key ''values'' Required (Leaf JUndefined ''Array<unknown>'')))))))"
  by (simp add: validate_Throw SeriesCodec_def IndividualValueSetCodec_def D_lazy_def
      D_struct_unfold fromStruct_def traverseRecordWithIndex_def D_string_def D_nullable_def
      fromGuard_def D_array_unfold series_auto_def auto_10_2_def)

section \<open>Decoding value sets\<close>





section \<open>Errors at the entry point\<close>

text \<open>
  Claim C6, as stated, fails: on an input that the codec rejects, \<open>validate\<close> throws.
  Here the input is \<^verbatim>\<open>null\<close>.
\<close>

theorem validate_null_throws:
  "validate AnIMLCodec JNull = Throw (Lazy ''AnIML'' (Leaf JNull ''Record<string, unknown>''))"
  by (simp add: validate_Throw AnIMLCodec_def D_lazy_def D_struct_unfold)

text \<open>
  Claim C6, amended. The codec returns its errors as data (a \<^verbatim>\<open>left\<close>), and \<open>validate\<close>
  turns every such failure into a thrown \<^verbatim>\<open>Error\<close> built from the errors, returning the
  decoded value only when the codec accepts the input. In particular every input that is
  not an object makes \<open>validate AnIMLCodec\<close> throw, and whatever \<open>validate AnIMLCodec\<close>
  throws is the codec's own error, tagged with the name of the codec.
\<close>

theorem validate_throws_on_failure:
  "(codec v = Inl e \<longrightarrow> validate codec v = Throw e) \<and>
   (codec v = Inr a \<longrightarrow> validate codec v = Return a) \<and>
   (\<not> G_UnknownRecord u \<longrightarrow>
      validate AnIMLCodec u = Throw (Lazy ''AnIML'' (Leaf u ''Record<string, unknown>''))) \<and>
   (validate AnIMLCodec u = Throw e' \<longrightarrow>
      (\<exists>d. e' = Lazy ''AnIML'' d) \<and> (\<forall>r. AnIMLCodec u \<noteq> Inr r))"
proof (intro conjI impI)
  assume "codec v = Inl e"
  then show "validate codec v = Throw e" by (simp add: validate_Throw)
next
  assume "codec v = Inr a"
  then show "validate codec v = Return a" by (simp add: validate_Return)
next
  assume "\<not> G_UnknownRecord u"
  then show "validate AnIMLCodec u = Throw (Lazy ''AnIML'' (Leaf u ''Record<string, unknown>''))"
    by (simp add: validate_Throw AnIMLCodec_def D_lazy_def D_struct_unfold)
next
  assume t: "validate AnIMLCodec u = Throw e'"
  then have l: "AnIMLCodec u = Inl e'" by (simp add: validate_Throw)
  then show "\<forall>r. AnIMLCodec u \<noteq> Inr r" by simp
  from l show "\<exists>d. e' = Lazy ''AnIML'' d"
    unfolding AnIMLCodec_def D_lazy_def
    by (cases "D_struct
       [(''version'', D_string),
        (''sample_set'', D_nullable SampleSetCodec),
        (''experiment_step_set'', D_nullable ExperimentStepSetCodec),
        (''audit_trail_entry_set'', D_nullable AuditTrailEntrySetCodec)] u") auto
qed

theorem validate_throws_on_failure_witness:
  "AnIMLCodec (JStr ''x'') = Inl (Lazy ''AnIML'' (Leaf (JStr ''x'') ''Record<string, unknown>'')) \<and>
   validate AnIMLCodec (JStr ''x'') = Throw (Lazy ''AnIML'' (Leaf (JStr ''x'') ''Record<string, unknown>'')) \<and>
   AnIMLCodec (doc_minimal ''0.90'') = Inr (doc_minimal ''0.90'') \<and>
   validate AnIMLCodec (doc_minimal ''0.90'') = Return (doc_minimal ''0.90'')"
proof -
  have l: "AnIMLCodec (JStr ''x'') = Inl (Lazy ''AnIML'' (Leaf (JStr ''x'') ''Record<string, unknown>''))"
    by (simp add: AnIMLCodec_def D_lazy_def D_struct_unfold)
  have r: "AnIMLCodec (doc_minimal ''0.90'') = Inr (doc_minimal ''0.90'')"
    by (simp add: AnIMLCodec_Inr D_string_Inr D_nullable_Inr doc_minimal_def)
  from l r
    validate_throws_on_failure [of AnIMLCodec "JStr ''x''" _ _ "JStr ''x''"]
    validate_throws_on_failure [of AnIMLCodec "doc_minimal ''0.90''" _ "doc_minimal ''0.90''"]
  show ?thesis by simp
qed

section \<open>Missing fields\<close>

text \<open>
  Claim C7. An object that lacks a required field is rejected, and the error names the
  missing field: a Sample without \<^verbatim>\<open>name\<close> or without \<^verbatim>\<open>sample_id\<close> and a SeriesSet
  without \<^verbatim>\<open>length\<close> make \<open>validate\<close> throw, and among the errors is the node
  \<^verbatim>\<open>required property "<field>"\<close> over \<^verbatim>\<open>cannot decode undefined, should be string\<close>.
  The last conjunct is the same fact for any struct codec and any field whose decoder
  rejects \<^verbatim>\<open>undefined\<close>.
\<close>

theorem missing_required_field_rejected:
  assumes "G_UnknownRecord u"
  shows "(\<not> has_key u ''name'' \<longrightarrow>
            (\<exists>e. validate SampleCodec u = Throw (Lazy ''Sample'' e) \<and>
                 Key ''name'' Required (Leaf JUndefined ''string'') \<in> set (toForest e))) \<and>
         (\<not> has_key u ''sample_id'' \<longrightarrow>
            (\<exists>e. validate SampleCodec u = Throw (Lazy ''Sample'' e) \<and>
                 Key ''sample_id'' Required (Leaf JUndefined ''string'') \<in> set (toForest e))) \<and>
         (\<not> has_key u ''length'' \<longrightarrow>
            (\<exists>e. validate SeriesSetCodec u = Throw (Lazy ''SeriesSet'' e) \<and>
                 Key ''length'' Required (Leaf JUndefined ''string'') \<in> set (toForest e))) \<and>
         ((k, d) \<in> set ps \<and> \<not> has_key u k \<and> d JUndefined = Inl e0 \<longrightarrow>
            (\<exists>e. validate (D_lazy ident (D_struct ps)) u = Throw (Lazy ident e) \<and>
                 Key k Required e0 \<in> set (toForest e)))"
proof -
  have gen: "\<exists>e. validate (D_lazy ident (D_struct ps)) u = Throw (Lazy ident e) \<and>
                 Key k Required e0 \<in> set (toForest e)"
    if "(k, d) \<in> set ps" "\<not> has_key u k" "d JUndefined = Inl e0" for ident ps k d e0
    using D_struct_missing_key [OF assms that] by (auto simp: validate_Throw D_lazy_Inl)
  have a: "\<not> has_key u ''name'' \<longrightarrow>
            (\<exists>e. validate SampleCodec u = Throw (Lazy ''Sample'' e) \<and>
                 Key ''name'' Required (Leaf JUndefined ''string'') \<in> set (toForest e))"
    unfolding SampleCodec_def
    by (intro impI gen [where d = D_string]) (simp_all add: D_string_undefined)
  have b: "\<not> has_key u ''sample_id'' \<longrightarrow>
            (\<exists>e. validate SampleCodec u = Throw (Lazy ''Sample'' e) \<and>
                 Key ''sample_id'' Required (Leaf JUndefined ''string'') \<in> set (toForest e))"
    unfolding SampleCodec_def
    by (intro impI gen [where d = D_string]) (simp_all add: D_string_undefined)
  have c: "\<not> has_key u ''length'' \<longrightarrow>
            (\<exists>e. validate SeriesSetCodec u = Throw (Lazy ''SeriesSet'' e) \<and>
                 Key ''length'' Required (Leaf JUndefined ''string'') \<in> set (toForest e))"
    unfolding SeriesSetCodec_def
    by (intro impI gen [where d = D_string]) (simp_all add: D_string_undefined)
  from a b c gen show ?thesis by blast
qed

theorem missing_required_field_rejected_witness:
  "G_UnknownRecord sample_no_name \<and> \<not> has_key sample_no_name ''name'' \<and>
   (\<exists>e. validate SampleCodec sample_no_name = Throw (Lazy ''Sample'' e) \<and>
        Key ''name'' Required (Leaf JUndefined ''string'') \<in> set (toForest e))"
proof -
  have g: "G_UnknownRecord sample_no_name" by (simp add: sample_no_name_def)
  have k: "\<not> has_key sample_no_name ''name''" by (simp add: sample_no_name_def)
  from missing_required_field_rejected [OF g] g k show ?thesis by blast
qed

section \<open>Enumerated fields\<close>

text \<open>
  Claim C8 says that a value outside the domain of an enumerated field is rejected, and
  the documentation in \<^verbatim>\<open>index.ts\<close> gives the domains (\<^verbatim>\<open>scope\<close>: may be
  \<^verbatim>\<open>'element'\<close> or \<^verbatim>\<open>'attribute'\<close>; \<^verbatim>\<open>sample_purpose\<close>: produced or consumed;
  \<^verbatim>\<open>dependency\<close>: independent or dependent). The codecs declare the three fields
  \<^verbatim>\<open>D.string\<close>: evaluated at a Diff, a SampleReference and a Series whose value is
  \<^verbatim>\<open>"bogus"\<close>, \<open>validate\<close> returns them.
\<close>

theorem out_of_domain_values_accepted:
  "validate DiffCodec diff_bogus = Return diff_bogus \<and>
   get_prop diff_bogus ''scope'' \<noteq> JStr ''element'' \<and>
   get_prop diff_bogus ''scope'' \<noteq> JStr ''attribute'' \<and>
   validate SampleReferenceCodec sample_reference_bogus = Return sample_reference_bogus \<and>
   get_prop sample_reference_bogus ''sample_purpose'' \<noteq> JStr ''produced'' \<and>
   get_prop sample_reference_bogus ''sample_purpose'' \<noteq> JStr ''consumed'' \<and>
   validate SeriesCodec series_bogus = Return series_bogus \<and>
   get_prop series_bogus ''dependency'' \<noteq> JStr ''independent'' \<and>
   get_prop series_bogus ''dependency'' \<noteq> JStr ''dependent''"
  by (simp add: validate_Return DiffCodec_Inr SampleReferenceCodec_Inr SeriesCodec_Inr
      D_string_Inr D_nullable_Inr diff_bogus_def sample_reference_bogus_def series_bogus_def)

section \<open>Keys that the interfaces mark optional\<close>

text \<open>
  Claim C9. Validation succeeds only if every key that the codec lists is present in the
  input, whether or not the interface marks the field optional: an accepted AnIML
  document has all four keys, and an accepted SampleSet has an array under \<^verbatim>\<open>sample\<close>
  (so neither a missing key nor \<^verbatim>\<open>null\<close>). The third conjunct is the general fact for
  \<^verbatim>\<open>D.struct\<close>; the remaining ones say that each kind of field decoder used in
  \<^verbatim>\<open>index.ts\<close> rejects \<^verbatim>\<open>undefined\<close>, and that \<^verbatim>\<open>D.array\<close> rejects \<^verbatim>\<open>null\<close>.
\<close>

theorem listed_keys_must_be_present:
  "(validate AnIMLCodec u = Return r \<longrightarrow>
      has_key u ''version'' \<and> has_key u ''sample_set'' \<and> has_key u ''experiment_step_set'' \<and>
      has_key u ''audit_trail_entry_set'') \<and>
   (validate SampleSetCodec u = Return r \<longrightarrow> (\<exists>xs. get_prop u ''sample'' = JArr xs)) \<and>
   (D_struct ps u = Inr r \<and> (k, d) \<in> set ps \<and> isl (d JUndefined) \<longrightarrow> has_key u k) \<and>
   isl (D_string JUndefined) \<and> isl (D_number JUndefined) \<and>
   isl (D_array item JUndefined) \<and> isl (D_array item JNull) \<and>
   isl (D_lazy ident (D_struct qs) JUndefined) \<and>
   isl (D_nullable D_string JUndefined) \<and>
   isl (D_nullable (D_lazy ident (D_struct qs)) JUndefined)"
proof -
  have root: "has_key u ''version'' \<and> has_key u ''sample_set'' \<and>
      has_key u ''experiment_step_set'' \<and> has_key u ''audit_trail_entry_set''"
    if "validate AnIMLCodec u = Return r"
  proof -
    from that have s: "D_struct
       [(''version'', D_string),
        (''sample_set'', D_nullable SampleSetCodec),
        (''experiment_step_set'', D_nullable ExperimentStepSetCodec),
        (''audit_trail_entry_set'', D_nullable AuditTrailEntrySetCodec)] u = Inr r"
      by (simp add: validate_Return AnIMLCodec_def)
    have 1: "has_key u ''version''"
      by (rule D_struct_needs_key [OF s, of _ D_string]) (simp_all add: isl_undefined)
    have 2: "has_key u ''sample_set''"
      by (rule D_struct_needs_key [OF s, of _ "D_nullable SampleSetCodec"])
        (simp_all add: isl_D_nullable isl_D_lazy isl_undefined SampleSetCodec_def)
    have 3: "has_key u ''experiment_step_set''"
      by (rule D_struct_needs_key [OF s, of _ "D_nullable ExperimentStepSetCodec"])
        (simp_all add: isl_D_nullable isl_D_lazy isl_undefined ExperimentStepSetCodec_def)
    have 4: "has_key u ''audit_trail_entry_set''"
      by (rule D_struct_needs_key [OF s, of _ "D_nullable AuditTrailEntrySetCodec"])
        (simp_all add: isl_D_nullable isl_D_lazy isl_undefined AuditTrailEntrySetCodec_def)
    from 1 2 3 4 show ?thesis by simp
  qed
  have arr: "\<exists>xs. get_prop u ''sample'' = JArr xs" if "validate SampleSetCodec u = Return r"
    using that by (auto simp: validate_Return SampleSetCodec_Inr D_array_Inr)
  have rest: "isl (D_lazy ident (D_struct qs) JUndefined) \<and>
      isl (D_nullable D_string JUndefined) \<and>
      isl (D_nullable (D_lazy ident (D_struct qs)) JUndefined)"
    by (simp add: isl_D_nullable isl_D_lazy isl_undefined)
  from root arr rest D_struct_needs_key [of ps u r k d] isl_undefined
  show ?thesis by simp
qed

theorem listed_keys_must_be_present_witness:
  "validate AnIMLCodec (doc_minimal ''0.90'') = Return (doc_minimal ''0.90'') \<and>
   has_key (doc_minimal ''0.90'') ''sample_set'' \<and>
   \<not> has_key doc_no_sample_set ''sample_set'' \<and>
   (\<forall>r. validate AnIMLCodec doc_no_sample_set \<noteq> Return r)"
proof -
  have h: "validate AnIMLCodec (doc_minimal ''0.90'') = Return (doc_minimal ''0.90'')"
    by (simp add: validate_Return AnIMLCodec_Inr D_string_Inr D_nullable_Inr doc_minimal_def)
  have n: "\<not> has_key doc_no_sample_set ''sample_set''"
    by (simp add: doc_no_sample_set_def)
  from h n
    listed_keys_must_be_present [of "doc_minimal ''0.90''" "doc_minimal ''0.90''"]
    listed_keys_must_be_present [of doc_no_sample_set]
  show ?thesis by blast
qed

section \<open>The decoded object\<close>

text \<open>
  Claim C10. When \<open>validate\<close> succeeds on a document, the object it returns has exactly
  the four keys that \<open>AnIMLCodec\<close> declares, in the order of the declaration, so every
  other property of the input is dropped. The version string is carried over as it is,
  and each of the three sections is the decoded value of the input's property of that
  name. The second conjunct is the same fact for any struct codec: the keys of the result
  are the declared keys, and the value under each key is what the field's decoder returns
  for the input's property.
\<close>

theorem validate_AnIML_declared_keys_only:
  "(validate AnIMLCodec u = Return r \<longrightarrow>
      (\<exists>v s e a.
         r = JObj [(''version'', v), (''sample_set'', s), (''experiment_step_set'', e),
                   (''audit_trail_entry_set'', a)] \<and>
         v = get_prop u ''version'' \<and>
         D_nullable SampleSetCodec (get_prop u ''sample_set'') = Inr s \<and>
         D_nullable ExperimentStepSetCodec (get_prop u ''experiment_step_set'') = Inr e \<and>
         D_nullable AuditTrailEntrySetCodec (get_prop u ''audit_trail_entry_set'') = Inr a)) \<and>
   (distinct (map fst ps) \<and> validate (D_lazy ident (D_struct ps)) w = Return r' \<longrightarrow>
      (\<exists>kvs. r' = JObj kvs \<and> map fst kvs = map fst ps) \<and>
      (\<forall>(k, d) \<in> set ps. d (get_prop w k) = Inr (get_prop r' k)))"
proof (intro conjI impI)
  assume "validate AnIMLCodec u = Return r"
  then show "\<exists>v s e a.
         r = JObj [(''version'', v), (''sample_set'', s), (''experiment_step_set'', e),
                   (''audit_trail_entry_set'', a)] \<and>
         v = get_prop u ''version'' \<and>
         D_nullable SampleSetCodec (get_prop u ''sample_set'') = Inr s \<and>
         D_nullable ExperimentStepSetCodec (get_prop u ''experiment_step_set'') = Inr e \<and>
         D_nullable AuditTrailEntrySetCodec (get_prop u ''audit_trail_entry_set'') = Inr a"
    by (auto simp: validate_Return AnIMLCodec_Inr D_string_Inr)
next
  assume a: "distinct (map fst ps) \<and> validate (D_lazy ident (D_struct ps)) w = Return r'"
  then have "D_struct ps w = Inr r'" by (simp add: validate_Return)
  with a D_struct_result [of ps w r']
  show "\<exists>kvs. r' = JObj kvs \<and> map fst kvs = map fst ps"
    and "\<forall>(k, d) \<in> set ps. d (get_prop w k) = Inr (get_prop r' k)"
    by simp_all
qed

theorem validate_AnIML_declared_keys_only_witness:
  "validate AnIMLCodec doc_extra = Return (doc_minimal ''0.90'') \<and>
   has_key doc_extra ''note'' \<and> \<not> has_key (doc_minimal ''0.90'') ''note'' \<and>
   (\<exists>v s e a.
      doc_minimal ''0.90'' = JObj [(''version'', v), (''sample_set'', s),
         (''experiment_step_set'', e), (''audit_trail_entry_set'', a)] \<and>
      v = get_prop doc_extra ''version'' \<and>
      D_nullable SampleSetCodec (get_prop doc_extra ''sample_set'') = Inr s \<and>
      D_nullable ExperimentStepSetCodec (get_prop doc_extra ''experiment_step_set'') = Inr e \<and>
      D_nullable AuditTrailEntrySetCodec (get_prop doc_extra ''audit_trail_entry_set'') = Inr a)"
proof -
  have h: "validate AnIMLCodec doc_extra = Return (doc_minimal ''0.90'')"
    by (simp add: validate_Return AnIMLCodec_Inr D_string_Inr D_nullable_Inr
        doc_extra_def doc_minimal_def)
  have k: "has_key doc_extra ''note'' \<and> \<not> has_key (doc_minimal ''0.90'') ''note''"
    by (simp add: doc_extra_def doc_minimal_def)
  from h k validate_AnIML_declared_keys_only [of doc_extra "doc_minimal ''0.90''"]
  show ?thesis by blast
qed

end
